theory Spec2Isabelle
  imports Main
begin

section \<open>Order-paper question extraction (scrap.py)\<close>

text \<open>
  A shallow embedding of \<^verbatim>\<open>extract_parliament_questions\<close> of
  \<^verbatim>\<open>src/data mining/scrap.py\<close>: the line extractor, the metadata scan over the first
  20 lines, the loop that cuts the lines into question records, and the result dictionary.
  A Python \<^verbatim>\<open>str\<close> is a \<open>string\<close>; a \<open>char\<close> stands for the code point of the same
  number, so the model covers text whose code points are below 256.
\<close>

subsection \<open>Character classes and string operations of Python\<close>

text \<open>\<^verbatim>\<open>\d\<close> of \<^verbatim>\<open>re\<close>: the decimal digits; below 256 these are 0 to 9.\<close>

definition is_digit :: "char \<Rightarrow> bool" where
  "is_digit c \<longleftrightarrow> c \<in> set ''0123456789''"

text \<open>
  \<^verbatim>\<open>\s\<close> of \<^verbatim>\<open>re\<close> and the characters \<^verbatim>\<open>str.strip()\<close> removes: tab, line feed,
  vertical tab, form feed, carriage return, the four separators 28 to 31, space, next line
  (133) and no-break space (160).
\<close>

definition is_space :: "char \<Rightarrow> bool" where
  "is_space c \<longleftrightarrow>
     c \<in> set [CHR 0x09, CHR 0x0A, CHR 0x0B, CHR 0x0C, CHR 0x0D, CHR 0x1C, CHR 0x1D,
              CHR 0x1E, CHR 0x1F, CHR 0x20, CHR 0x85, CHR 0xA0]"

text \<open>\<^verbatim>\<open>.\<close> of \<^verbatim>\<open>re\<close> without DOTALL: every character but the line feed.\<close>

definition any_char :: "char \<Rightarrow> bool" where
  "any_char c \<longleftrightarrow> c \<noteq> CHR 0x0A"

text \<open>
  \<^verbatim>\<open>str.lower()\<close> on one character: A to Z and the upper-case letters 192 to 222
  (but the multiplication sign 215) move up by 32.
\<close>

definition lower_char :: "char \<Rightarrow> char" where
  "lower_char c =
     (let n = (of_char c :: nat)
      in if (65 \<le> n \<and> n \<le> 90) \<or> (192 \<le> n \<and> n \<le> 222 \<and> n \<noteq> 215)
         then char_of (n + 32) else c)"

definition lower :: "string \<Rightarrow> string" where
  "lower s = map lower_char s"

text \<open>\<^verbatim>\<open>s.strip()\<close>.\<close>

definition strip :: "string \<Rightarrow> string" where
  "strip s = rev (dropWhile is_space (rev (dropWhile is_space s)))"

text \<open>\<^verbatim>\<open>s.startswith(p)\<close>, and \<^verbatim>\<open>sub in s\<close>.\<close>

fun starts_with :: "string \<Rightarrow> string \<Rightarrow> bool" where
  "starts_with [] s = True"
| "starts_with (p # ps) [] = False"
| "starts_with (p # ps) (c # cs) = (p = c \<and> starts_with ps cs)"

fun contains :: "string \<Rightarrow> string \<Rightarrow> bool" where
  "contains sub [] = (sub = [])"
| "contains sub (c # cs) = (starts_with sub (c # cs) \<or> contains sub cs)"

text \<open>
  \<^verbatim>\<open>s.replace(old, "")\<close>: every occurrence of \<open>old\<close> is cut out, scanning from the
  left, the scan going on after an occurrence it has cut.
\<close>

fun remove_all :: "string \<Rightarrow> string \<Rightarrow> string" where
  "remove_all old [] = []"
| "remove_all old (c # cs) =
     (if old \<noteq> [] \<and> starts_with old (c # cs)
      then remove_all old (drop (length old) (c # cs))
      else c # remove_all old cs)"

text \<open>\<^verbatim>\<open>text.split('\n')\<close>: the pieces between line feeds, the empty ones too.\<close>

fun split_lines :: "string \<Rightarrow> string list" where
  "split_lines [] = [[]]"
| "split_lines (c # cs) =
     (if c = CHR 0x0A then [] # split_lines cs
      else (case split_lines cs of
              [] \<Rightarrow> [[c]]
            | l # ls \<Rightarrow> (c # l) # ls))"

subsection \<open>The two regular expressions\<close>

text \<open>
  \<^verbatim>\<open>re.match\<close> is a backtracking matcher: it returns the first match in the order of
  its attempts. \<open>lazy_plus p s\<close> lists the ways a lazy \<^verbatim>\<open>x+?\<close> can match at the start
  of \<open>s\<close>, as (matched text, rest), shortest first; \<open>greedy_plus\<close> lists those of a
  greedy \<^verbatim>\<open>x+\<close>, longest first. \<open>first_some\<close> takes the first attempt that succeeds.
\<close>

fun plus_from :: "(char \<Rightarrow> bool) \<Rightarrow> string \<Rightarrow> string \<Rightarrow> (string \<times> string) list" where
  "plus_from p acc [] = []"
| "plus_from p acc (c # cs) =
     (if p c then (acc @ [c], cs) # plus_from p (acc @ [c]) cs else [])"

definition lazy_plus :: "(char \<Rightarrow> bool) \<Rightarrow> string \<Rightarrow> (string \<times> string) list" where
  "lazy_plus p s = plus_from p [] s"

definition greedy_plus :: "(char \<Rightarrow> bool) \<Rightarrow> string \<Rightarrow> (string \<times> string) list" where
  "greedy_plus p s = rev (plus_from p [] s)"

fun first_some :: "('a \<Rightarrow> 'b option) \<Rightarrow> 'a list \<Rightarrow> 'b option" where
  "first_some f [] = None"
| "first_some f (x # xs) = (case f x of Some y \<Rightarrow> Some y | None \<Rightarrow> first_some f xs)"

text \<open>
  \<^verbatim>\<open>$\<close> holds at the end of the text and before a line feed that ends it;
  \<open>match_end\<close> is \<^verbatim>\<open>:?$\<close>.
\<close>

definition at_end :: "string \<Rightarrow> bool" where
  "at_end r \<longleftrightarrow> r = [] \<or> r = [CHR 0x0A]"

definition match_end :: "string \<Rightarrow> bool" where
  "match_end r \<longleftrightarrow> (case r of c # r' \<Rightarrow> c = CHR '':'' \<and> at_end r' | [] \<Rightarrow> False) \<or> at_end r"

text \<open>\<^verbatim>\<open>to ask the (.+?):?$\<close>, giving group 3.\<close>

definition match_minister :: "string \<Rightarrow> string option" where
  "match_minister r =
     (if starts_with ''to ask the '' r
      then first_some (\<lambda>(g3, r'). if match_end r' then Some g3 else None)
             (lazy_plus any_char (drop (length ''to ask the '') r))
      else None)"

text \<open>\<^verbatim>\<open>\s+-\s+to ask the (.+?):?$\<close>, giving group 3.\<close>

definition match_sep :: "string \<Rightarrow> string option" where
  "match_sep r =
     first_some
       (\<lambda>(w, r'). case r' of
            [] \<Rightarrow> None
          | c # r'' \<Rightarrow>
              if c = CHR ''-''
              then first_some (\<lambda>(w', r3). match_minister r3) (greedy_plus is_space r'')
              else None)
       (greedy_plus is_space r)"

text \<open>
  \<^verbatim>\<open>re.match(r'^(\d+)\s+(.+?)\s+-\s+to ask the (.+?):?$', line)\<close>: the groups 1, 2 and
  3 of the match, or \<open>None\<close>.
\<close>

definition question_match :: "string \<Rightarrow> (string \<times> string \<times> string) option" where
  "question_match line =
     first_some
       (\<lambda>(g1, r1).
          first_some
            (\<lambda>(w1, r2).
               first_some
                 (\<lambda>(g2, r3). map_option (\<lambda>g3. (g1, g2, g3)) (match_sep r3))
                 (lazy_plus any_char r2))
            (greedy_plus is_space r1))
       (greedy_plus is_digit line)"

text \<open>\<^verbatim>\<open>re.match(r'^\([a-z]\)', s)\<close> as a truth value.\<close>

definition part_match :: "string \<Rightarrow> bool" where
  "part_match s \<longleftrightarrow>
     (case s of
        a # b # c # _ \<Rightarrow>
          a = CHR ''('' \<and> (97 \<le> (of_char b :: nat) \<and> (of_char b :: nat) \<le> 122) \<and> c = CHR '')''
      | _ \<Rightarrow> False)"

subsection \<open>Questions, metadata and the result\<close>

text \<open>
  The dictionaries of the source as records. A key that a dictionary may lack
  (\<^verbatim>\<open>question_text\<close>; \<^verbatim>\<open>parliament\<close>, \<^verbatim>\<open>session\<close>, \<^verbatim>\<open>date\<close>, \<^verbatim>\<open>time\<close>) and a
  value that may be \<^verbatim>\<open>None\<close> (\<^verbatim>\<open>title\<close>, \<^verbatim>\<open>section\<close>) are options. The key
  \<^verbatim>\<open>section\<close> is the field \<open>section_line\<close>.
\<close>

record question =
  question_number :: string
  asked_by :: string
  minister :: string
  section_line :: "string option"
  parts :: "string list"
  question_text :: "string option"

record metadata =
  title :: "string option"
  source_url :: string
  document_type :: string
  parliament :: "string option"
  session :: "string option"
  date :: "string option"
  time :: "string option"

text \<open>
  The dictionary the function returns: \<^verbatim>\<open>{"metadata", "questions", "question_count",
  "status": "success"}\<close> or \<^verbatim>\<open>{"status": "error", "message", "url"}\<close>.
\<close>

datatype result =
  Success metadata "question list" nat
| Error string string

fun status :: "result \<Rightarrow> string" where
  "status (Success md qs n) = ''success''"
| "status (Error msg u) = ''error''"

text \<open>
  What the function reads from the network, as a value: the text of
  \<^verbatim>\<open>h1#page-title\<close> and the text of \<^verbatim>\<open>div.field-name-body\<close> (\<^verbatim>\<open>get_text('\n')\<close>), each
  \<open>None\<close> when the page has no such element.
\<close>

record page =
  page_title :: "string option"
  field_name_body :: "string option"

text \<open>
  A raised exception, with its \<^verbatim>\<open>str(e)\<close>. \<open>Exception\<close> is an instance of the class
  \<^verbatim>\<open>Exception\<close> (a \<^verbatim>\<open>RequestException\<close>, an \<^verbatim>\<open>HTTPError\<close>, a \<^verbatim>\<open>ValueError\<close>, ...);
  \<open>BaseException\<close> is an instance of \<^verbatim>\<open>BaseException\<close> that is no instance of
  \<^verbatim>\<open>Exception\<close> (a \<^verbatim>\<open>KeyboardInterrupt\<close>, a \<^verbatim>\<open>SystemExit\<close>). A computation that may
  raise has a value \<open>exn + 'a\<close>: \<open>Inl\<close> of what it raised, or \<open>Inr\<close> of what it returned.
\<close>

datatype exn =
  Exception string
| BaseException string

subsection \<open>The line extractor\<close>

text \<open>\<^verbatim>\<open>[line.strip() for line in text_content.split('\n') if line.strip()]\<close>\<close>

definition extract_lines :: "string \<Rightarrow> string list" where
  "extract_lines text_content =
     map strip (filter (\<lambda>line. strip line \<noteq> []) (split_lines text_content))"

subsection \<open>The metadata scan\<close>

definition has_weekday :: "string \<Rightarrow> bool" where
  "has_weekday line \<longleftrightarrow>
     contains ''MONDAY'' line \<or> contains ''TUESDAY'' line \<or> contains ''WEDNESDAY'' line \<or>
     contains ''THURSDAY'' line \<or> contains ''FRIDAY'' line"

text \<open>The body of the loop over \<^verbatim>\<open>lines[:20]\<close>: one \<^verbatim>\<open>if\<close>/\<^verbatim>\<open>elif\<close> chain.\<close>

definition scan_line :: "metadata \<Rightarrow> string \<Rightarrow> metadata" where
  "scan_line md line =
     (if contains ''NATIONAL ASSEMBLY OF ZAMBIA'' line then md\<lparr>parliament := Some line\<rparr>
      else if contains ''SESSION OF THE'' line \<and> contains ''ASSEMBLY'' line
        then md\<lparr>session := Some line\<rparr>
      else if contains ''ORDER PAPER'' line \<and> has_weekday line
        then md\<lparr>date := Some (remove_all ''ORDER PAPER - '' line)\<rparr>
      else if contains ''AT'' line \<and> contains ''HOURS'' line then md\<lparr>time := Some line\<rparr>
      else md)"

definition scan_metadata :: "metadata \<Rightarrow> string list \<Rightarrow> metadata" where
  "scan_metadata md lines = foldl scan_line md (take 20 lines)"

subsection \<open>The question loop\<close>

text \<open>The local variables of the loop.\<close>

record seg_state =
  questions :: "question list"
  current_question :: "question option"
  in_questions_section :: bool
  current_section :: "string option"

definition init_state :: seg_state where
  "init_state =
     \<lparr>questions = [], current_question = None, in_questions_section = False,
      current_section = None\<rparr>"

definition is_section_start :: "string \<Rightarrow> bool" where
  "is_section_start line \<longleftrightarrow> contains ''QUESTIONS FOR ORAL ANSWER'' line"

definition is_terminator :: "string \<Rightarrow> bool" where
  "is_terminator line \<longleftrightarrow>
     contains ''MOTIONS'' line \<or> contains ''ORDERS OF THE DAY'' line \<or>
     contains (''HIS HONOUR THE VICE PRESIDENT'' @ [CHR 0x27] @ ''S QUESTION TIME'') line"

text \<open>
  \<^verbatim>\<open>questions.append(current_question)\<close> under \<^verbatim>\<open>if current_question:\<close>. A question
  dictionary has five keys at least, so it is true whenever it is not \<^verbatim>\<open>None\<close>.
\<close>

definition flush :: "seg_state \<Rightarrow> question list" where
  "flush s = (case current_question s of None \<Rightarrow> questions s | Some q \<Rightarrow> questions s @ [q])"

definition new_question :: "seg_state \<Rightarrow> string \<times> string \<times> string \<Rightarrow> question" where
  "new_question s g =
     (case g of (g1, g2, g3) \<Rightarrow>
        \<lparr>question_number = g1, asked_by = strip g2, minister = strip g3,
         section_line = current_section s, parts = [], question_text = None\<rparr>)"

text \<open>
  The body of the loop under \<^verbatim>\<open>if in_questions_section:\<close>: a question header, a part
  \<^verbatim>\<open>(a)\<close>, \<^verbatim>\<open>(b)\<close>, a continuation of the last part, a continuation of the header.
\<close>

definition classify_line :: "seg_state \<Rightarrow> string \<Rightarrow> seg_state" where
  "classify_line s line =
     (case question_match line of
        Some g \<Rightarrow> s\<lparr>questions := flush s, current_question := Some (new_question s g)\<rparr>
      | None \<Rightarrow>
          (case current_question s of
             None \<Rightarrow> s
           | Some q \<Rightarrow>
               if part_match (lower line)
                 then s\<lparr>current_question := Some (q\<lparr>parts := parts q @ [line]\<rparr>)\<rparr>
               else if parts q \<noteq> []
                 then s\<lparr>current_question :=
                        Some (q\<lparr>parts := butlast (parts q) @ [last (parts q) @ '' '' @ line]\<rparr>)\<rparr>
               else if \<not> contains ''to ask the'' line
                 then s\<lparr>current_question :=
                        Some (q\<lparr>question_text :=
                                Some ((case question_text q of None \<Rightarrow> [] | Some t \<Rightarrow> t)
                                      @ '' '' @ line)\<rparr>)\<rparr>
               else s))"

text \<open>
  \<^verbatim>\<open>for line in lines:\<close> with its \<^verbatim>\<open>continue\<close> and its \<^verbatim>\<open>break\<close>; the result is
  the state in which the loop is left.
\<close>

fun process_lines :: "seg_state \<Rightarrow> string list \<Rightarrow> seg_state" where
  "process_lines s [] = s"
| "process_lines s (line # rest) =
     (if is_section_start line
        then process_lines (s\<lparr>in_questions_section := True, current_section := Some line\<rparr>) rest
      else if is_terminator line \<and> in_questions_section s then s
      else if in_questions_section s then process_lines (classify_line s line) rest
      else process_lines s rest)"

text \<open>
  The clean-up loop: \<^verbatim>\<open>del question["question_text"]\<close> when the key is there and its
  text strips to nothing.
\<close>

definition clean_question :: "question \<Rightarrow> question" where
  "clean_question q =
     (case question_text q of
        None \<Rightarrow> q
      | Some t \<Rightarrow> if strip t = [] then q\<lparr>question_text := None\<rparr> else q)"

text \<open>The whole of the segmentation: loop, last flush, clean-up.\<close>

definition finish :: "seg_state \<Rightarrow> question list" where
  "finish s = map clean_question (flush s)"

definition segment_questions :: "string list \<Rightarrow> question list" where
  "segment_questions lines = finish (process_lines init_state lines)"

subsection \<open>The function\<close>

text \<open>The dictionary \<^verbatim>\<open>metadata\<close> as it is first built, with no key from the content yet.\<close>

definition initial_metadata :: "string option \<Rightarrow> string \<Rightarrow> metadata" where
  "initial_metadata t url =
     \<lparr>title = t, source_url = url, document_type = ''Order Paper'', parliament = None,
      session = None, date = None, time = None\<rparr>"

text \<open>
  The body of the \<^verbatim>\<open>try\<close> block. The parameter \<open>fetch\<close> stands for
  \<^verbatim>\<open>requests.get\<close>, \<^verbatim>\<open>raise_for_status\<close> and the HTML parser with its two
  \<^verbatim>\<open>find\<close> calls: it returns the page or raises. A page without its content element
  makes the block raise \<^verbatim>\<open>ValueError("Could not find the main content div")\<close>;
  nothing after the lines are extracted can raise.
\<close>

definition try_block :: "(string \<Rightarrow> exn + page) \<Rightarrow> string \<Rightarrow> exn + result" where
  "try_block fetch url =
     (case fetch url of
        Inl e \<Rightarrow> Inl e
      | Inr pg \<Rightarrow>
          (case field_name_body pg of
             None \<Rightarrow> Inl (Exception ''Could not find the main content div'')
           | Some text_content \<Rightarrow>
               (let lines = extract_lines text_content;
                    md = scan_metadata (initial_metadata (page_title pg) url) lines;
                    qs = segment_questions lines
                in Inr (Success md qs (length qs)))))"

text \<open>
  \<^verbatim>\<open>extract_parliament_questions(url)\<close>: the \<^verbatim>\<open>try\<close> block under
  \<^verbatim>\<open>except Exception as e\<close>, whose handler returns the error dictionary with
  \<^verbatim>\<open>str(e)\<close>. The clause catches the instances of \<^verbatim>\<open>Exception\<close>; any other
  exception leaves the function.
\<close>

definition extract_parliament_questions ::
    "(string \<Rightarrow> exn + page) \<Rightarrow> string \<Rightarrow> exn + result" where
  "extract_parliament_questions fetch url =
     (case try_block fetch url of
        Inr r \<Rightarrow> Inr r
      | Inl (Exception msg) \<Rightarrow> Inr (Error msg url)
      | Inl (BaseException msg) \<Rightarrow> Inl (BaseException msg))"

subsection \<open>Notions used in the statements\<close>

text \<open>
  The condition under which the \<^verbatim>\<open>if\<close>/\<^verbatim>\<open>elif\<close> chain of the metadata scan reaches
  the branch of each key, and the last element of a list of candidates (\<open>d\<close> when there
  is none).
\<close>

definition sets_parliament :: "string \<Rightarrow> bool" where
  "sets_parliament line \<longleftrightarrow> contains ''NATIONAL ASSEMBLY OF ZAMBIA'' line"

definition sets_session :: "string \<Rightarrow> bool" where
  "sets_session line \<longleftrightarrow>
     \<not> sets_parliament line \<and> contains ''SESSION OF THE'' line \<and> contains ''ASSEMBLY'' line"

definition sets_date :: "string \<Rightarrow> bool" where
  "sets_date line \<longleftrightarrow>
     \<not> sets_parliament line \<and> \<not> sets_session line \<and>
     contains ''ORDER PAPER'' line \<and> has_weekday line"

definition sets_time :: "string \<Rightarrow> bool" where
  "sets_time line \<longleftrightarrow>
     \<not> sets_parliament line \<and> \<not> sets_session line \<and> \<not> sets_date line \<and>
     contains ''AT'' line \<and> contains ''HOURS'' line"

definition last_or :: "string option \<Rightarrow> string list \<Rightarrow> string option" where
  "last_or d ls = (if ls = [] then d else Some (last ls))"

text \<open>A property of the questions of a loop state: those appended and the open one.\<close>

definition state_all :: "(question \<Rightarrow> bool) \<Rightarrow> seg_state \<Rightarrow> bool" where
  "state_all P s \<longleftrightarrow>
     list_all P (questions s) \<and> (case current_question s of None \<Rightarrow> True | Some q \<Rightarrow> P q)"

definition digits_number :: "question \<Rightarrow> bool" where
  "digits_number q \<longleftrightarrow> question_number q \<noteq> [] \<and> list_all is_digit (question_number q)"

definition lettered_parts :: "question \<Rightarrow> bool" where
  "lettered_parts q \<longleftrightarrow> list_all (\<lambda>p. part_match (lower p)) (parts q)"

text \<open>The example of the specification, and inputs for the instances below.\<close>

definition example_lines :: "string list" where
  "example_lines =
     [''QUESTIONS FOR ORAL ANSWER'', ''12 Mr Banda - to ask the Minister of Health:'',
      ''(a) What is the budget?'', ''continued here'',
      ''13 Mrs Phiri - to ask the Minister of Education'', ''MOTIONS'']"

definition banda_open :: seg_state where
  "banda_open =
     \<lparr>questions = [],
      current_question =
        Some \<lparr>question_number = ''12'', asked_by = ''Mr Banda'', minister = ''Minister of Health'',
              section_line = Some ''QUESTIONS FOR ORAL ANSWER'', parts = [],
              question_text = None\<rparr>,
      in_questions_section = True, current_section = Some ''QUESTIONS FOR ORAL ANSWER''\<rparr>"

definition example_page :: page where
  "example_page =
     \<lparr>page_title = Some ''Order Paper'',
      field_name_body =
        Some (''NATIONAL ASSEMBLY OF ZAMBIA'' @ [CHR 0x0A] @ ''  '' @ [CHR 0x0A] @
              ''QUESTIONS FOR ORAL ANSWER'' @ [CHR 0x0A] @
              '' 12 Mr Banda - to ask the Minister of Health: '' @ [CHR 0x0A] @ ''MOTIONS'')\<rparr>"

definition header_lines :: "string list" where
  "header_lines =
     [''NATIONAL ASSEMBLY OF ZAMBIA'', ''FOURTH SESSION OF THE THIRTEENTH ASSEMBLY'',
      ''ORDER PAPER - TUESDAY, 3RD MARCH, 2026'', ''THIRTEENTH NATIONAL ASSEMBLY OF ZAMBIA'']"

section \<open>Properties of the loop\<close>

subsection \<open>Section flag, skipped lines, the break\<close>

lemma classify_line_flags:
  "in_questions_section (classify_line s line) = in_questions_section s"
  "current_section (classify_line s line) = current_section s"
  by (simp_all add: classify_line_def split: option.splits)

lemma process_lines_in_section:
  "in_questions_section s \<Longrightarrow> in_questions_section (process_lines s lines)"
  by (induction lines arbitrary: s) (simp_all add: classify_line_flags)

lemma process_lines_before_section:
  "\<not> in_questions_section s \<Longrightarrow> \<forall>l\<in>set pre. \<not> is_section_start l \<Longrightarrow>
   process_lines s (pre @ rest) = process_lines s rest"
  by (induction pre) simp_all

lemma process_lines_append:
  "\<forall>l\<in>set xs. is_section_start l \<or> \<not> is_terminator l \<Longrightarrow>
   process_lines s (xs @ rest) = process_lines (process_lines s xs) rest"
  by (induction xs arbitrary: s) auto

lemma process_lines_break:
  "in_questions_section s \<Longrightarrow> is_terminator t \<Longrightarrow> \<not> is_section_start t \<Longrightarrow>
   process_lines s (t # post) = s"
  by simp

lemma process_lines_no_section:
  "\<not> in_questions_section s \<Longrightarrow> \<forall>l\<in>set ls. \<not> is_section_start l \<Longrightarrow> process_lines s ls = s"
  by (induction ls) simp_all

subsection \<open>Questions already appended stay in front\<close>

lemma flush_questions_update: "flush (s\<lparr>questions := qs @ questions s\<rparr>) = qs @ flush s"
  by (simp add: flush_def split: option.splits)

lemma classify_line_questions_prefix:
  "classify_line (s\<lparr>questions := qs @ questions s\<rparr>) line =
   (classify_line s line)\<lparr>questions := qs @ questions (classify_line s line)\<rparr>"
  by (simp add: classify_line_def new_question_def flush_questions_update split: option.splits prod.splits)

lemma process_lines_questions_prefix:
  "process_lines (s\<lparr>questions := qs @ questions s\<rparr>) lines =
   (process_lines s lines)\<lparr>questions := qs @ questions (process_lines s lines)\<rparr>"
proof (induction lines arbitrary: s)
  case Nil
  then show ?case by simp
next
  case (Cons line rest)
  let ?s = "s\<lparr>questions := qs @ questions s\<rparr>"
  let ?s1 = "s\<lparr>in_questions_section := True, current_section := Some line\<rparr>"
  have flag: "in_questions_section ?s = in_questions_section s" by simp
  show ?case
  proof (cases "is_section_start line")
    case True
    have comm: "?s\<lparr>in_questions_section := True, current_section := Some line\<rparr> =
          ?s1\<lparr>questions := qs @ questions ?s1\<rparr>"
      by simp
    have "process_lines ?s (line # rest) =
          process_lines (?s\<lparr>in_questions_section := True, current_section := Some line\<rparr>) rest"
      using True by simp
    then have "process_lines ?s (line # rest) = process_lines (?s1\<lparr>questions := qs @ questions ?s1\<rparr>) rest"
      by (simp only: comm)
    also have "\<dots> = (process_lines ?s1 rest)\<lparr>questions := qs @ questions (process_lines ?s1 rest)\<rparr>"
      by (rule Cons.IH)
    finally show ?thesis using True by simp
  next
    case False
    show ?thesis
    proof (cases "in_questions_section s")
      case no: False
      with False Cons.IH [of s] show ?thesis by simp
    next
      case yes: True
      show ?thesis
      proof (cases "is_terminator line")
        case True
        with False yes show ?thesis by simp
      next
        case nt: False
        have "process_lines ?s (line # rest) =
              process_lines ((classify_line s line)\<lparr>questions := qs @ questions (classify_line s line)\<rparr>) rest"
          using False yes nt by (simp add: classify_line_questions_prefix)
        also have "\<dots> = (process_lines (classify_line s line) rest)
              \<lparr>questions := qs @ questions (process_lines (classify_line s line) rest)\<rparr>"
          by (rule Cons.IH)
        finally show ?thesis using False yes nt by simp
      qed
    qed
  qed
qed

lemma finish_questions_prefix:
  "finish (s\<lparr>questions := qs @ questions s\<rparr>) = map clean_question qs @ finish s"
  by (simp add: finish_def flush_questions_update)

subsection \<open>The metadata scan as a last match\<close>

lemma foldl_scan_line:
  "parliament (foldl scan_line md ls) = last_or (parliament md) (filter sets_parliament ls)"
  "session (foldl scan_line md ls) = last_or (session md) (filter sets_session ls)"
  "date (foldl scan_line md ls) =
     last_or (date md) (map (remove_all ''ORDER PAPER - '') (filter sets_date ls))"
  "time (foldl scan_line md ls) = last_or (time md) (filter sets_time ls)"
  by (induction ls rule: rev_induct)
     (simp_all add: scan_line_def last_or_def sets_parliament_def sets_session_def sets_date_def sets_time_def)

subsection \<open>Invariants of the questions\<close>

lemma state_all_flush: "state_all P s \<Longrightarrow> list_all P (flush s)"
  by (auto simp: state_all_def flush_def split: option.splits)

lemma process_lines_state_all:
  assumes step: "\<And>s line. state_all P s \<Longrightarrow> state_all P (classify_line s line)"
  shows "state_all P s \<Longrightarrow> state_all P (process_lines s lines)"
proof (induction lines arbitrary: s)
  case Nil
  then show ?case by simp
next
  case (Cons line rest)
  have "state_all P (s\<lparr>in_questions_section := True, current_section := Some line\<rparr>)"
    using Cons.prems by (simp add: state_all_def)
  moreover have "state_all P (classify_line s line)"
    using Cons.prems by (rule step)
  ultimately show ?case
    using Cons.IH Cons.prems by simp
qed

lemma first_some_SomeD: "first_some f xs = Some y \<Longrightarrow> \<exists>x\<in>set xs. f x = Some y"
  by (induction xs) (auto split: option.splits)

lemma plus_from_run:
  "(a, r) \<in> set (plus_from p acc s) \<Longrightarrow>
   \<exists>b. a = acc @ b \<and> b \<noteq> [] \<and> list_all p b \<and> s = b @ r"
proof (induction s arbitrary: acc)
  case Nil
  then show ?case by simp
next
  case (Cons c cs)
  show ?case
  proof (cases "p c")
    case False
    with Cons.prems show ?thesis by simp
  next
    case True
    with Cons.prems consider "a = acc @ [c] \<and> r = cs"
      | "(a, r) \<in> set (plus_from p (acc @ [c]) cs)"
      by auto
    then show ?thesis
    proof cases
      case 1
      with True show ?thesis by simp
    next
      case 2
      then obtain b where "a = (acc @ [c]) @ b" "list_all p b" "cs = b @ r"
        using Cons.IH by blast
      with True have "a = acc @ (c # b) \<and> c # b \<noteq> [] \<and> list_all p (c # b) \<and>
          c # cs = (c # b) @ r"
        by simp
      then show ?thesis by blast
    qed
  qed
qed

lemma space_not_digit: "is_space c \<Longrightarrow> \<not> is_digit c"
  by (auto simp: is_space_def is_digit_def)

lemma question_match_shape:
  assumes "question_match line = Some (g1, g2, g3)"
  shows "g1 \<noteq> [] \<and> list_all is_digit g1 \<and> (\<exists>c rest. line = g1 @ c # rest \<and> is_space c)"
proof -
  from assms obtain x where x: "x \<in> set (greedy_plus is_digit line)"
    and fx: "(case x of (g1', r1) \<Rightarrow>
          first_some
            (\<lambda>(w1, r2).
               first_some
                 (\<lambda>(g2, r3). map_option (\<lambda>g3. (g1', g2, g3)) (match_sep r3))
                 (lazy_plus any_char r2))
            (greedy_plus is_space r1)) = Some (g1, g2, g3)"
    unfolding question_match_def by (blast dest: first_some_SomeD)
  obtain a r where xa: "x = (a, r)" by (cases x)
  from fx xa obtain y where y: "y \<in> set (greedy_plus is_space r)"
    and fy: "(case y of (w1, r2) \<Rightarrow> first_some
                 (\<lambda>(g2, r3). map_option (\<lambda>g3. (a, g2, g3)) (match_sep r3))
                 (lazy_plus any_char r2)) = Some (g1, g2, g3)"
    by (auto dest: first_some_SomeD)
  obtain w r2 where yw: "y = (w, r2)" by (cases y)
  from fy yw obtain z where "z \<in> set (lazy_plus any_char r2)"
    and fz: "(case z of (g2', r3) \<Rightarrow> map_option (\<lambda>g3. (a, g2', g3)) (match_sep r3)) =
      Some (g1, g2, g3)"
    by (auto dest: first_some_SomeD)
  from fz have g1: "g1 = a" by (cases z) auto
  from x xa have "(a, r) \<in> set (plus_from is_digit [] line)"
    by (simp add: greedy_plus_def)
  then have a: "a \<noteq> [] \<and> list_all is_digit a \<and> line = a @ r"
    by (auto dest: plus_from_run)
  from y yw have "(w, r2) \<in> set (plus_from is_space [] r)"
    by (simp add: greedy_plus_def)
  then have "w \<noteq> [] \<and> list_all is_space w \<and> r = w @ r2"
    by (auto dest: plus_from_run)
  then obtain c w' where "r = c # w' @ r2" "is_space c"
    by (cases w) auto
  with a g1 show ?thesis by blast
qed

lemma question_match_digits:
  "question_match line = Some (g1, g2, g3) \<Longrightarrow> g1 \<noteq> [] \<and> list_all is_digit g1"
  by (simp add: question_match_shape)

lemma question_match_leading_run:
  assumes "question_match line = Some (g1, g2, g3)"
  shows "g1 = takeWhile is_digit line"
proof -
  from assms obtain c rest where l: "line = g1 @ c # rest" and c: "is_space c"
    and d: "list_all is_digit g1"
    using question_match_shape by blast
  from d have "takeWhile is_digit (g1 @ c # rest) = g1 @ takeWhile is_digit (c # rest)"
    by (simp add: takeWhile_append2 list_all_iff)
  with c l show ?thesis by (simp add: space_not_digit)
qed

lemma classify_line_header:
  "question_match line = Some (n, a, m) \<Longrightarrow>
   current_question (classify_line s line) =
     Some \<lparr>question_number = n, asked_by = strip a, minister = strip m,
           section_line = current_section s, parts = [], question_text = None\<rparr>"
  by (simp add: classify_line_def new_question_def)

lemma classify_line_digits: "state_all digits_number s \<Longrightarrow> state_all digits_number (classify_line s line)"
proof (cases "question_match line")
  case None
  assume "state_all digits_number s"
  with None show ?thesis
    by (auto simp: classify_line_def state_all_def digits_number_def split: option.splits)
next
  case (Some g)
  assume a: "state_all digits_number s"
  obtain g1 g2 g3 where g: "g = (g1, g2, g3)" by (cases g)
  with Some have "g1 \<noteq> [] \<and> list_all is_digit g1" by (simp add: question_match_digits)
  then have "digits_number (new_question s g)" by (simp add: g new_question_def digits_number_def)
  with a Some show ?thesis
    by (simp add: classify_line_def state_all_def state_all_flush)
qed

lemma clean_question_fields:
  "question_number (clean_question q) = question_number q"
  "parts (clean_question q) = parts q"
  by (simp_all add: clean_question_def split: option.splits)

lemma segment_digits: "list_all digits_number (segment_questions lines)"
proof -
  have "state_all digits_number init_state" by (simp add: state_all_def init_state_def)
  with classify_line_digits have "state_all digits_number (process_lines init_state lines)"
    by (rule process_lines_state_all)
  then have "list_all digits_number (flush (process_lines init_state lines))"
    by (rule state_all_flush)
  then show ?thesis
    by (simp add: segment_questions_def finish_def list_all_iff digits_number_def clean_question_fields)
qed

lemma part_match_append: "part_match (lower p) \<Longrightarrow> part_match (lower (p @ t))"
  by (auto simp: part_match_def lower_def split: list.splits)

lemma classify_line_lettered: "state_all lettered_parts s \<Longrightarrow> state_all lettered_parts (classify_line s line)"
proof (cases "question_match line")
  case (Some g)
  assume a: "state_all lettered_parts s"
  have "lettered_parts (new_question s g)" by (cases g) (simp add: new_question_def lettered_parts_def)
  with a Some show ?thesis
    by (simp add: classify_line_def state_all_def state_all_flush)
next
  case None
  assume a: "state_all lettered_parts s"
  show ?thesis
  proof (cases "current_question s")
    case None
    with a \<open>question_match line = None\<close> show ?thesis by (simp add: classify_line_def)
  next
    case (Some q)
    with a have q: "list_all (\<lambda>p. part_match (lower p)) (parts q)"
      and qs: "list_all lettered_parts (questions s)"
      by (simp_all add: state_all_def lettered_parts_def)
    have "parts q \<noteq> [] \<Longrightarrow> list_all (\<lambda>p. part_match (lower p)) (butlast (parts q) @ [last (parts q) @ '' '' @ line])"
      using q by (auto simp: list_all_iff part_match_append dest: in_set_butlastD)
    with q qs Some \<open>question_match line = None\<close> show ?thesis
      by (simp add: classify_line_def state_all_def lettered_parts_def)
  qed
qed

lemma segment_lettered: "list_all lettered_parts (segment_questions lines)"
proof -
  have "state_all lettered_parts init_state" by (simp add: state_all_def init_state_def)
  with classify_line_lettered have "state_all lettered_parts (process_lines init_state lines)"
    by (rule process_lines_state_all)
  then have "list_all lettered_parts (flush (process_lines init_state lines))"
    by (rule state_all_flush)
  then show ?thesis
    by (simp add: segment_questions_def finish_def list_all_iff lettered_parts_def clean_question_fields)
qed

section \<open>The claims\<close>

subsection \<open>C1: the example of the specification\<close>

text \<open>
  C1 says that the six example lines give two questions, number 12 with minister
  "Health" and number 13 with minister "Education". The pattern takes as group 3 all the
  text after "to ask the ", so the field \<open>minister\<close> holds "Minister of Health" and
  "Minister of Education": the claim as stated fails on the ministers.
\<close>

theorem example_minister_counterexample:
  "map minister (segment_questions example_lines) \<noteq> [''Health'', ''Education'']"
  by code_simp

text \<open>
  C1, amended: the example lines give exactly two questions, number 12 asked by
  "Mr Banda" of the "Minister of Health" with the one part "(a) What is the budget?
  continued here", and number 13 asked by "Mrs Phiri" of the "Minister of Education" with
  no part; both carry the section line, and the loop stops at "MOTIONS".
\<close>

theorem example_segmentation:
  "segment_questions example_lines =
     [\<lparr>question_number = ''12'', asked_by = ''Mr Banda'', minister = ''Minister of Health'',
       section_line = Some ''QUESTIONS FOR ORAL ANSWER'',
       parts = [''(a) What is the budget? continued here''], question_text = None\<rparr>,
      \<lparr>question_number = ''13'', asked_by = ''Mrs Phiri'', minister = ''Minister of Education'',
       section_line = Some ''QUESTIONS FOR ORAL ANSWER'', parts = [], question_text = None\<rparr>]"
  by code_simp

theorem example_segmentation_witness:
  "map asked_by (segment_questions example_lines) = [''Mr Banda'', ''Mrs Phiri'']"
  by (simp add: example_segmentation)

subsection \<open>C2: a terminator line ends the segmentation\<close>

text \<open>
  C2 says that, in the questions section, the first line with "MOTIONS", "ORDERS OF THE
  DAY" or the Vice President's question time ends the segmentation. The loop tests for
  "QUESTIONS FOR ORAL ANSWER" first and goes on to the next line when it finds it, so a
  line holding both that phrase and a terminator does not end the loop: here the header of
  question 13, which comes after such a line, is still read.
\<close>

theorem terminator_with_section_phrase_counterexample:
  "is_terminator ''QUESTIONS FOR ORAL ANSWER AND MOTIONS'' \<and>
   map question_number
     (segment_questions
        [''QUESTIONS FOR ORAL ANSWER'', ''12 Mr Banda - to ask the Minister of Health:'',
         ''QUESTIONS FOR ORAL ANSWER AND MOTIONS'',
         ''13 Mrs Phiri - to ask the Minister of Education'']) = [''12'', ''13'']"
  by code_simp

text \<open>
  C2, amended: let \<open>sec\<close> be the first line with "QUESTIONS FOR ORAL ANSWER" and \<open>t\<close>
  the first line after it that holds a terminator phrase and not "QUESTIONS FOR ORAL
  ANSWER". Then the loop is left at \<open>t\<close> in the state it had reached before \<open>t\<close>; the
  result is the questions of that state with the open question, if there is one, appended
  (and cleaned up); the lines \<open>post\<close> after \<open>t\<close> have no effect on it.
\<close>

theorem terminator_ends_segmentation:
  assumes "\<forall>l\<in>set before. \<not> is_section_start l"
    and "is_section_start sec"
    and "\<forall>l\<in>set mid. is_section_start l \<or> \<not> is_terminator l"
    and "is_terminator t" and "\<not> is_section_start t"
  shows "process_lines init_state (before @ sec # mid @ t # post) =
           process_lines init_state (before @ sec # mid) \<and>
         segment_questions (before @ sec # mid @ t # post) =
           map clean_question
             (case current_question (process_lines init_state (before @ sec # mid)) of
                None \<Rightarrow> questions (process_lines init_state (before @ sec # mid))
              | Some q \<Rightarrow> questions (process_lines init_state (before @ sec # mid)) @ [q])"
proof -
  let ?s1 = "init_state\<lparr>in_questions_section := True, current_section := Some sec\<rparr>"
  have start: "process_lines init_state (before @ sec # ls) = process_lines ?s1 ls" for ls
    using assms(1,2) by (simp add: process_lines_before_section init_state_def)
  have "in_questions_section (process_lines ?s1 mid)"
    by (rule process_lines_in_section) simp
  then have "process_lines (process_lines ?s1 mid) (t # post) = process_lines ?s1 mid"
    using assms(4,5) by (rule process_lines_break)
  then have "process_lines ?s1 (mid @ t # post) = process_lines ?s1 mid"
    using assms(3) by (simp add: process_lines_append)
  then have same: "process_lines init_state (before @ sec # mid @ t # post) =
      process_lines init_state (before @ sec # mid)"
    using start [of "mid @ t # post"] start [of mid] by simp
  then show ?thesis
    by (simp add: segment_questions_def finish_def flush_def)
qed

theorem terminator_ends_segmentation_witness:
  "is_section_start ''QUESTIONS FOR ORAL ANSWER'' \<and> is_terminator ''MOTIONS'' \<and>
   \<not> is_section_start ''MOTIONS'' \<and>
   map question_number
     (segment_questions
        ([''ORDERS OF THE DAY''] @ ''QUESTIONS FOR ORAL ANSWER'' #
         [''12 Mr Banda - to ask the Minister of Health:'', ''(a) What is the budget?''] @
         ''MOTIONS'' # [''13 Mrs Phiri - to ask the Minister of Education''])) = [''12'']"
proof -
  let ?before = "[''ORDERS OF THE DAY'']"
  let ?sec = "''QUESTIONS FOR ORAL ANSWER''"
  let ?mid = "[''12 Mr Banda - to ask the Minister of Health:'', ''(a) What is the budget?'']"
  let ?t = "''MOTIONS''"
  let ?post = "[''13 Mrs Phiri - to ask the Minister of Education'']"
  let ?s = "process_lines init_state (?before @ ?sec # ?mid)"
  have h1: "\<forall>l\<in>set ?before. \<not> is_section_start l" by code_simp
  have h2: "is_section_start ?sec" by code_simp
  have h3: "\<forall>l\<in>set ?mid. is_section_start l \<or> \<not> is_terminator l" by code_simp
  have h4: "is_terminator ?t" by code_simp
  have h5: "\<not> is_section_start ?t" by code_simp
  have "segment_questions (?before @ ?sec # ?mid @ ?t # ?post) =
      map clean_question
        (case current_question ?s of None \<Rightarrow> questions ?s | Some q \<Rightarrow> questions ?s @ [q])"
    using terminator_ends_segmentation [OF h1 h2 h3 h4 h5, of ?post] by (rule conjunct2)
  moreover have "map question_number (map clean_question
        (case current_question ?s of None \<Rightarrow> questions ?s | Some q \<Rightarrow> questions ?s @ [q])) =
      [''12'']"
    by code_simp
  ultimately have "map question_number (segment_questions (?before @ ?sec # ?mid @ ?t # ?post)) =
      [''12'']"
    by (simp only:)
  with h2 h4 h5 show ?thesis by (simp only: simp_thms)
qed

subsection \<open>C3: a header line starts a new question\<close>

text \<open>
  C3 says that a line of the header pattern always starts a new question. The tests for
  the section line and for the terminators come before the pattern, so a header that holds
  a terminator phrase ends the loop and starts nothing: here the header of question 13
  matches the pattern and only question 12 comes out.
\<close>

theorem header_with_terminator_counterexample:
  "question_match ''13 Mrs Phiri - to ask the Minister of Education on MOTIONS'' =
     Some (''13'', ''Mrs Phiri'', ''Minister of Education on MOTIONS'') \<and>
   map question_number
     (segment_questions
        [''QUESTIONS FOR ORAL ANSWER'', ''12 Mr Banda - to ask the Minister of Health:'',
         ''13 Mrs Phiri - to ask the Minister of Education on MOTIONS'']) = [''12'']"
  by code_simp

text \<open>
  C3, amended: in the questions section, a line that matches the header pattern and
  holds neither "QUESTIONS FOR ORAL ANSWER" nor a terminator phrase always starts a new
  question with the three groups of the match, the current section and no parts. The
  result of the run then begins with the questions appended so far followed by the
  question that was open, whatever its parts (none, too), and goes on with what the rest
  of the lines make from the new question.
\<close>

theorem header_starts_new_question:
  assumes "in_questions_section s"
    and "\<not> is_section_start line" and "\<not> is_terminator line"
    and "question_match line = Some (n, a, m)"
  shows "finish (process_lines s (line # rest)) =
         map clean_question
           (case current_question s of None \<Rightarrow> questions s | Some q \<Rightarrow> questions s @ [q]) @
         finish (process_lines
           (s\<lparr>questions := [],
              current_question :=
                Some \<lparr>question_number = n, asked_by = strip a, minister = strip m,
                      section_line = current_section s, parts = [], question_text = None\<rparr>\<rparr>)
           rest)"
proof -
  let ?s0 = "s\<lparr>questions := [],
              current_question :=
                Some \<lparr>question_number = n, asked_by = strip a, minister = strip m,
                      section_line = current_section s, parts = [], question_text = None\<rparr>\<rparr>"
  have "classify_line s line = ?s0\<lparr>questions := flush s @ questions ?s0\<rparr>"
    using assms(4) by (simp add: classify_line_def new_question_def)
  then have "process_lines s (line # rest) =
      process_lines (?s0\<lparr>questions := flush s @ questions ?s0\<rparr>) rest"
    using assms(1,2,3) by simp
  then have "finish (process_lines s (line # rest)) =
      map clean_question (flush s) @ finish (process_lines ?s0 rest)"
    by (simp only: process_lines_questions_prefix finish_questions_prefix)
  then show ?thesis by (simp only: flush_def)
qed

theorem header_starts_new_question_witness:
  "in_questions_section banda_open \<and>
   question_match ''13 Mrs Phiri - to ask the Minister of Education'' =
     Some (''13'', ''Mrs Phiri'', ''Minister of Education'') \<and>
   map (\<lambda>q. (question_number q, parts q))
     (finish (process_lines banda_open
        [''13 Mrs Phiri - to ask the Minister of Education'', ''(a) How many schools?''])) =
     [(''12'', []), (''13'', [''(a) How many schools?''])]"
proof -
  let ?line = "''13 Mrs Phiri - to ask the Minister of Education''"
  let ?rest = "[''(a) How many schools?'']"
  have h1: "in_questions_section banda_open" by code_simp
  have h2: "\<not> is_section_start ?line" by code_simp
  have h3: "\<not> is_terminator ?line" by code_simp
  have h4: "question_match ?line = Some (''13'', ''Mrs Phiri'', ''Minister of Education'')"
    by code_simp
  note eq = header_starts_new_question [OF h1 h2 h3 h4, of ?rest]
  have "map (\<lambda>q. (question_number q, parts q))
      (map clean_question
         (case current_question banda_open of None \<Rightarrow> questions banda_open
          | Some q \<Rightarrow> questions banda_open @ [q]) @
       finish (process_lines
         (banda_open\<lparr>questions := [],
            current_question :=
              Some \<lparr>question_number = ''13'', asked_by = strip ''Mrs Phiri'',
                    minister = strip ''Minister of Education'',
                    section_line = current_section banda_open, parts = [],
                    question_text = None\<rparr>\<rparr>)
         ?rest)) = [(''12'', []), (''13'', [''(a) How many schools?''])]"
    by code_simp
  then have "map (\<lambda>q. (question_number q, parts q))
      (finish (process_lines banda_open (?line # ?rest))) =
      [(''12'', []), (''13'', [''(a) How many schools?''])]"
    by (simp only: eq)
  with h1 h4 show ?thesis by (simp only: simp_thms)
qed

subsection \<open>C4: lines before the questions section\<close>

text \<open>
  C4: no line that comes before the first line with "QUESTIONS FOR ORAL ANSWER" is read
  as a header, a part or a continuation; such lines add nothing to the questions. The
  result for \<open>pre @ rest\<close> is that for \<open>rest\<close> whenever no line of \<open>pre\<close> holds the
  phrase.
\<close>

theorem lines_before_section_ignored:
  "\<forall>l\<in>set pre. \<not> is_section_start l \<Longrightarrow>
   segment_questions (pre @ rest) = segment_questions rest"
  by (simp add: segment_questions_def process_lines_before_section init_state_def)

theorem lines_before_section_ignored_witness:
  "\<not> is_section_start ''7 Mr Zulu - to ask the Minister of Finance:'' \<and>
   \<not> is_section_start ''(a) What is the debt?'' \<and>
   segment_questions
     ([''7 Mr Zulu - to ask the Minister of Finance:'', ''(a) What is the debt?''] @
      example_lines) = segment_questions example_lines"
proof -
  let ?pre = "[''7 Mr Zulu - to ask the Minister of Finance:'', ''(a) What is the debt?'']"
  have h: "\<forall>l\<in>set ?pre. \<not> is_section_start l" by code_simp
  have "segment_questions (?pre @ example_lines) = segment_questions example_lines"
    using h by (rule lines_before_section_ignored)
  with h show ?thesis by simp
qed

subsection \<open>C5: the metadata scan\<close>

text \<open>
  C5 says that a field of the metadata, once set, is not overwritten by a later matching
  line. Each branch of the scan assigns its key with no test of whether the key is there,
  so a later matching line among the first 20 replaces the value: of two lines with
  "NATIONAL ASSEMBLY OF ZAMBIA", \<open>parliament\<close> ends as the second.
\<close>

theorem metadata_overwrite_counterexample:
  "parliament
     (scan_metadata (initial_metadata None ''u'')
        [''NATIONAL ASSEMBLY OF ZAMBIA'', ''THIRTEENTH NATIONAL ASSEMBLY OF ZAMBIA'']) =
   Some ''THIRTEENTH NATIONAL ASSEMBLY OF ZAMBIA''"
  by code_simp

text \<open>
  C5, amended: after the scan over the first 20 lines, each of the fields parliament,
  session, date and time holds the last line among them that the chain of tests assigns to
  it (last match wins per field; for the date with every "ORDER PAPER - " cut out); a
  field with no such line keeps what it had before the scan, which is unset in the
  function, and that is not an error.
\<close>

theorem metadata_last_match_wins:
  "parliament (scan_metadata md lines) =
     last_or (parliament md) (filter sets_parliament (take 20 lines)) \<and>
   session (scan_metadata md lines) =
     last_or (session md) (filter sets_session (take 20 lines)) \<and>
   date (scan_metadata md lines) =
     last_or (date md)
       (map (remove_all ''ORDER PAPER - '') (filter sets_date (take 20 lines))) \<and>
   time (scan_metadata md lines) = last_or (time md) (filter sets_time (take 20 lines))"
  by (simp add: scan_metadata_def foldl_scan_line)

theorem metadata_last_match_wins_witness:
  "parliament (scan_metadata (initial_metadata None ''u'') header_lines) =
     Some ''THIRTEENTH NATIONAL ASSEMBLY OF ZAMBIA'' \<and>
   session (scan_metadata (initial_metadata None ''u'') header_lines) =
     Some ''FOURTH SESSION OF THE THIRTEENTH ASSEMBLY'' \<and>
   date (scan_metadata (initial_metadata None ''u'') header_lines) =
     Some ''TUESDAY, 3RD MARCH, 2026'' \<and>
   time (scan_metadata (initial_metadata None ''u'') header_lines) = None"
proof -
  let ?md = "initial_metadata None ''u''"
  note all = metadata_last_match_wins [of ?md header_lines]
  have p: "last_or (parliament ?md) (filter sets_parliament (take 20 header_lines)) =
      Some ''THIRTEENTH NATIONAL ASSEMBLY OF ZAMBIA''"
    by code_simp
  have s: "last_or (session ?md) (filter sets_session (take 20 header_lines)) =
      Some ''FOURTH SESSION OF THE THIRTEENTH ASSEMBLY''"
    by code_simp
  have d: "last_or (date ?md)
      (map (remove_all ''ORDER PAPER - '') (filter sets_date (take 20 header_lines))) =
      Some ''TUESDAY, 3RD MARCH, 2026''"
    by code_simp
  have t: "last_or (time ?md) (filter sets_time (take 20 header_lines)) = None"
    by code_simp
  from all show ?thesis by (simp only: p s d t)
qed

subsection \<open>C6: failures come back as the error result\<close>

text \<open>
  C6 says that the function returns the error result on any exception and never raises
  past its own boundary. Its handler is \<^verbatim>\<open>except Exception\<close>, which does not catch
  an exception that is no instance of \<^verbatim>\<open>Exception\<close>: a \<^verbatim>\<open>KeyboardInterrupt\<close> (whose
  \<^verbatim>\<open>str\<close> is empty) raised while the request waits leaves the function.
\<close>

theorem base_exception_escapes_counterexample:
  "extract_parliament_questions (\<lambda>u. Inl (BaseException [])) ''node/1'' =
     Inl (BaseException [])"
  by (simp add: extract_parliament_questions_def try_block_def)

text \<open>
  C6, amended: for every url, when the fetch raises an instance of \<^verbatim>\<open>Exception\<close>,
  when the page has no content element, or when the \<^verbatim>\<open>try\<close> block raises any other
  instance of \<^verbatim>\<open>Exception\<close>, the function returns the error result with
  \<^verbatim>\<open>str(e)\<close> and the url; it never raises an instance of \<^verbatim>\<open>Exception\<close>. The one
  thing it raises is an exception of the fetch that is no instance of \<^verbatim>\<open>Exception\<close>,
  which passes through unchanged.
\<close>

theorem exceptions_give_error_result:
  "(\<forall>msg. fetch url = Inl (Exception msg) \<longrightarrow>
      extract_parliament_questions fetch url = Inr (Error msg url)) \<and>
   (\<forall>pg. fetch url = Inr pg \<longrightarrow> field_name_body pg = None \<longrightarrow>
      extract_parliament_questions fetch url =
        Inr (Error ''Could not find the main content div'' url)) \<and>
   (\<forall>msg. try_block fetch url = Inl (Exception msg) \<longrightarrow>
      extract_parliament_questions fetch url = Inr (Error msg url)) \<and>
   (\<forall>msg. extract_parliament_questions fetch url \<noteq> Inl (Exception msg)) \<and>
   (\<forall>e. extract_parliament_questions fetch url = Inl e \<longrightarrow>
      (\<exists>msg. e = BaseException msg) \<and> fetch url = Inl e)"
proof -
  have fetch_raises: "extract_parliament_questions fetch url = Inr (Error msg url)"
    if "fetch url = Inl (Exception msg)" for msg
    using that by (simp add: extract_parliament_questions_def try_block_def)
  have no_div: "extract_parliament_questions fetch url =
      Inr (Error ''Could not find the main content div'' url)"
    if "fetch url = Inr pg" "field_name_body pg = None" for pg
    using that by (simp add: extract_parliament_questions_def try_block_def)
  have caught: "extract_parliament_questions fetch url = Inr (Error msg url)"
    if "try_block fetch url = Inl (Exception msg)" for msg
    using that by (simp add: extract_parliament_questions_def)
  have escapes: "(\<exists>msg. e = BaseException msg) \<and> fetch url = Inl e"
    if "extract_parliament_questions fetch url = Inl e" for e
    using that
    by (auto simp: extract_parliament_questions_def try_block_def Let_def
             split: sum.splits option.splits exn.splits)
  have "extract_parliament_questions fetch url \<noteq> Inl (Exception msg)" for msg
    using escapes [of "Exception msg"] by auto
  with fetch_raises no_div caught escapes show ?thesis by blast
qed

theorem exceptions_give_error_result_witness:
  "extract_parliament_questions (\<lambda>u. Inl (Exception ''Read timed out'')) ''node/1'' =
     Inr (Error ''Read timed out'' ''node/1'') \<and>
   extract_parliament_questions
     (\<lambda>u. Inr \<lparr>page_title = Some ''Order Paper'', field_name_body = None\<rparr>) ''node/1'' =
     Inr (Error ''Could not find the main content div'' ''node/1'')"
  using exceptions_give_error_result [of "\<lambda>u. Inl (Exception ''Read timed out'')" "''node/1''"]
    exceptions_give_error_result
      [of "\<lambda>u. Inr \<lparr>page_title = Some ''Order Paper'', field_name_body = None\<rparr>" "''node/1''"]
  by simp

subsection \<open>C7: a document without a questions section\<close>

text \<open>
  C7: when the page is fetched, has its content element, and none of its lines holds
  "QUESTIONS FOR ORAL ANSWER", the result is not an error: its status is "success", its
  questions are the empty list and its count is 0.
\<close>

theorem no_section_is_success:
  assumes "fetch url = Inr pg"
    and "field_name_body pg = Some text_content"
    and "\<forall>l\<in>set (extract_lines text_content). \<not> is_section_start l"
  shows "extract_parliament_questions fetch url =
           Inr (Success
             (scan_metadata (initial_metadata (page_title pg) url) (extract_lines text_content))
             [] 0) \<and>
         (case extract_parliament_questions fetch url of
            Inr r \<Rightarrow> status r = ''success''
          | Inl e \<Rightarrow> False)"
proof -
  have "process_lines init_state (extract_lines text_content) = init_state"
    using assms(3) by (simp add: process_lines_no_section init_state_def)
  then have "segment_questions (extract_lines text_content) = []"
    by (simp add: segment_questions_def finish_def flush_def init_state_def)
  then show ?thesis
    using assms(1,2) by (simp add: extract_parliament_questions_def try_block_def Let_def)
qed

theorem no_section_is_success_witness:
  "(case extract_parliament_questions
        (\<lambda>u. Inr \<lparr>page_title = None,
                   field_name_body =
                     Some (''NATIONAL ASSEMBLY OF ZAMBIA'' @ [CHR 0x0A] @ ''MOTIONS'')\<rparr>)
        ''node/1'' of
      Inr r \<Rightarrow> status r = ''success''
    | Inl e \<Rightarrow> False) \<and>
   extract_parliament_questions
     (\<lambda>u. Inr \<lparr>page_title = None,
                field_name_body =
                  Some (''NATIONAL ASSEMBLY OF ZAMBIA'' @ [CHR 0x0A] @ ''MOTIONS'')\<rparr>)
     ''node/1'' =
   Inr (Success
     (scan_metadata (initial_metadata None ''node/1'')
        (extract_lines (''NATIONAL ASSEMBLY OF ZAMBIA'' @ [CHR 0x0A] @ ''MOTIONS'')))
     [] 0)"
proof -
  let ?txt = "''NATIONAL ASSEMBLY OF ZAMBIA'' @ [CHR 0x0A] @ ''MOTIONS''"
  let ?pg = "\<lparr>page_title = None, field_name_body = Some ?txt\<rparr>"
  let ?fetch = "\<lambda>u::string. (Inr ?pg :: exn + page)"
  have h1: "?fetch ''node/1'' = Inr ?pg" by simp
  have h2: "field_name_body ?pg = Some ?txt" by simp
  have h3: "\<forall>l\<in>set (extract_lines ?txt). \<not> is_section_start l" by code_simp
  from no_section_is_success [of ?fetch "''node/1''" ?pg ?txt, OF h1 h2 h3]
  show ?thesis by simp
qed

subsection \<open>C8: the question count\<close>

text \<open>
  C8: in every success result the question count is the length of the list of
  questions.
\<close>

theorem question_count_is_length:
  "extract_parliament_questions fetch url = Inr (Success md qs n) \<Longrightarrow> n = length qs"
  by (auto simp: extract_parliament_questions_def try_block_def Let_def
           split: sum.splits option.splits exn.splits)

theorem question_count_is_length_witness:
  "\<exists>md qs. extract_parliament_questions (\<lambda>u. Inr example_page) ''node/1'' =
       Inr (Success md qs 1) \<and> 1 = length qs"
proof -
  let ?r = "extract_parliament_questions (\<lambda>u. Inr example_page) ''node/1''"
  have "case ?r of Inr (Success md qs n) \<Rightarrow> n = 1 | Inr (Error msg u) \<Rightarrow> False | Inl e \<Rightarrow> False"
    by code_simp
  then obtain md qs where r: "?r = Inr (Success md qs 1)"
    by (auto split: sum.splits result.splits)
  from question_count_is_length [OF r] have "1 = length qs" .
  with r show ?thesis by blast
qed

subsection \<open>C9: the question number\<close>

text \<open>
  C9 says that some input makes the segmenter give a question whose number is not a
  string of digits. The number is group 1 of the header pattern, a run of one or more
  characters of the class \<^verbatim>\<open>\d\<close>, so there is no such input; a header whose number is
  "12a" matches nothing and gives no question. (On the text the model covers, code points
  below 256, the class \<^verbatim>\<open>\d\<close> is 0 to 9; on other text it also holds the other decimal
  digits of Unicode, and the number is then a run of those.)
\<close>

theorem non_numeric_number_counterexample:
  "segment_questions
     [''QUESTIONS FOR ORAL ANSWER'', ''12a Mr Banda - to ask the Minister of Health:''] = [] \<and>
   \<not> (\<exists>lines q. q \<in> set (segment_questions lines) \<and>
         \<not> (question_number q \<noteq> [] \<and> list_all is_digit (question_number q)))"
proof -
  have "segment_questions
     [''QUESTIONS FOR ORAL ANSWER'', ''12a Mr Banda - to ask the Minister of Health:''] = []"
    by code_simp
  moreover have "question_number q \<noteq> [] \<and> list_all is_digit (question_number q)"
    if "q \<in> set (segment_questions lines)" for lines q
    using that segment_digits [of lines] by (simp add: list_all_iff digits_number_def)
  ultimately show ?thesis by blast
qed

text \<open>
  C9, amended, in three parts, on the text the model covers (code points below 256,
  where the digits of \<^verbatim>\<open>\d\<close> are 0 to 9). For every input, the question number of every
  question the segmenter gives is a non-empty string of decimal digits. A line matches the header
  pattern only if it begins with a non-empty run of digits followed by a whitespace
  character, and the number is the whole of that leading run of digits. When a line
  matches, the new question takes the three groups as its fields, the asker and the
  minister stripped, whatever they hold: no other check is made on them.
\<close>

theorem question_number_is_digits:
  "(\<forall>q\<in>set (segment_questions lines).
      question_number q \<noteq> [] \<and> list_all is_digit (question_number q)) \<and>
   (\<forall>line n a m. question_match line = Some (n, a, m) \<longrightarrow>
      n \<noteq> [] \<and> n = takeWhile is_digit line \<and>
      (\<exists>c rest. line = n @ c # rest \<and> is_space c)) \<and>
   (\<forall>s line n a m. question_match line = Some (n, a, m) \<longrightarrow>
      current_question (classify_line s line) =
        Some \<lparr>question_number = n, asked_by = strip a, minister = strip m,
              section_line = current_section s, parts = [], question_text = None\<rparr>)"
proof -
  have numbers: "\<forall>q\<in>set (segment_questions lines).
      question_number q \<noteq> [] \<and> list_all is_digit (question_number q)"
    using segment_digits [of lines] by (simp add: list_all_iff digits_number_def)
  have shape: "n \<noteq> [] \<and> n = takeWhile is_digit line \<and>
      (\<exists>c rest. line = n @ c # rest \<and> is_space c)"
    if "question_match line = Some (n, a, m)" for line n a m
    using that question_match_shape [OF that] question_match_leading_run [OF that] by blast
  have fields: "current_question (classify_line s line) =
        Some \<lparr>question_number = n, asked_by = strip a, minister = strip m,
              section_line = current_section s, parts = [], question_text = None\<rparr>"
    if "question_match line = Some (n, a, m)" for s line n a m
    using that by (rule classify_line_header)
  from numbers shape fields show ?thesis by blast
qed

theorem question_number_is_digits_witness:
  "list_all (\<lambda>q. question_number q \<noteq> [] \<and> list_all is_digit (question_number q))
     (segment_questions example_lines) \<and>
   map question_number (segment_questions example_lines) = [''12'', ''13''] \<and>
   question_match ''12   - to ask the ?'' = Some (''12'', '' '', ''?'') \<and>
   takeWhile is_digit ''12   - to ask the ?'' = ''12'' \<and>
   current_question (classify_line banda_open ''12   - to ask the ?'') =
     Some \<lparr>question_number = ''12'', asked_by = strip '' '', minister = strip ''?'',
           section_line = current_section banda_open, parts = [], question_text = None\<rparr>"
proof -
  note inst = question_number_is_digits [of example_lines]
  have m: "question_match ''12   - to ask the ?'' = Some (''12'', '' '', ''?'')"
    by code_simp
  from inst have "list_all (\<lambda>q. question_number q \<noteq> [] \<and> list_all is_digit (question_number q))
     (segment_questions example_lines)"
    by (simp add: list_all_iff)
  moreover have "map question_number (segment_questions example_lines) = [''12'', ''13'']"
    by code_simp
  moreover from inst m have "''12'' = takeWhile is_digit ''12   - to ask the ?''"
    by blast
  moreover from inst m have "current_question (classify_line banda_open ''12   - to ask the ?'') =
     Some \<lparr>question_number = ''12'', asked_by = strip '' '', minister = strip ''?'',
           section_line = current_section banda_open, parts = [], question_text = None\<rparr>"
    by blast
  ultimately show ?thesis using m by simp
qed

subsection \<open>C10: the parts of a question\<close>

text \<open>
  C10: for every input, every part of every question the segmenter gives begins, once
  put in lower case, with a bracketed letter \<^verbatim>\<open>(a)\<close> to \<^verbatim>\<open>(z)\<close>: a part is added
  only from a line that does, and a continuation is joined to the end of the last part.
\<close>

theorem parts_begin_with_letter:
  "\<forall>q\<in>set (segment_questions lines). \<forall>p\<in>set (parts q). part_match (lower p)"
  using segment_lettered [of lines] by (simp add: list_all_iff lettered_parts_def)

theorem parts_begin_with_letter_witness:
  "list_all (\<lambda>q. list_all (\<lambda>p. part_match (lower p)) (parts q))
     (segment_questions example_lines) \<and>
   concat (map parts (segment_questions example_lines)) =
     [''(a) What is the budget? continued here'']"
proof -
  have "list_all (\<lambda>q. list_all (\<lambda>p. part_match (lower p)) (parts q))
     (segment_questions example_lines)"
    using parts_begin_with_letter [of example_lines] by (simp add: list_all_iff)
  moreover have "concat (map parts (segment_questions example_lines)) =
     [''(a) What is the budget? continued here'']"
    by code_simp
  ultimately show ?thesis by blast
qed

end
